theory Spec2Isabelle
  imports Main
begin

section \<open>JavaScript values and string helpers\<close>

text \<open>
  The values that reach \<^verbatim>\<open>ConfigStore.toUnquotedJson\<close> (its parameter is typed
  \<^verbatim>\<open>any\<close>). Numbers are modelled as integers: every numeric field of a corruption
  descriptor (segment index, sequence, bitrate, ladder level, milliseconds, status code,
  rate) is an integer quantity, and the decimal rendering below is what a template
  literal produces for an integer below \<open>10^21\<close> in magnitude. Objects are lists of
  (key, value) pairs in property insertion order, as \<^verbatim>\<open>Object.entries\<close> returns them
  for non-numeric keys.
\<close>

datatype jsval =
    JUndefined
  | JNull
  | JBool bool
  | JNum int
  | JStr string
  | JArr "jsval list"
  | JObj "(string \<times> jsval) list"

text \<open>\<^verbatim>\<open>Array.prototype.join\<close> on a list of strings.\<close>

fun join :: "string \<Rightarrow> string list \<Rightarrow> string" where
  "join sep [] = []"
| "join sep [x] = x"
| "join sep (x # y # ys) = x @ sep @ join sep (y # ys)"

text \<open>Decimal rendering of a number, as \<^verbatim>\<open>`${value}`\<close> gives for an integer.\<close>

definition digit_char :: "nat \<Rightarrow> char" where
  "digit_char d = ''0123456789'' ! d"

fun string_of_nat :: "nat \<Rightarrow> string" where
  "string_of_nat n =
     (if n < 10 then [digit_char n]
      else string_of_nat (n div 10) @ [digit_char (n mod 10)])"

declare string_of_nat.simps [simp del]

definition string_of_number :: "int \<Rightarrow> string" where
  "string_of_number n =
     (if n < 0 then CHR ''-'' # string_of_nat (nat (- n)) else string_of_nat (nat n))"

definition string_of_bool :: "bool \<Rightarrow> string" where
  "string_of_bool b = (if b then ''true'' else ''false'')"

text \<open>
  \<^verbatim>\<open>JSON.stringify\<close> on the values that reach the last line of
  \<^verbatim>\<open>toUnquotedJson\<close>: primitives. A string is quoted with the JSON escapes;
  \<^verbatim>\<open>undefined\<close> has no JSON text and the call returns \<^verbatim>\<open>undefined\<close>, here
  \<open>None\<close>.
\<close>

definition hex_digit :: "nat \<Rightarrow> char" where
  "hex_digit d = ''0123456789abcdef'' ! d"

definition json_escape_char :: "char \<Rightarrow> string" where
  "json_escape_char c =
     (if c = CHR 0x22 then [CHR 0x5C, CHR 0x22]
      else if c = CHR 0x5C then [CHR 0x5C, CHR 0x5C]
      else if c = CHR 0x08 then [CHR 0x5C, CHR ''b'']
      else if c = CHR 0x0C then [CHR 0x5C, CHR ''f'']
      else if c = CHR 0x0A then [CHR 0x5C, CHR ''n'']
      else if c = CHR 0x0D then [CHR 0x5C, CHR ''r'']
      else if c = CHR 0x09 then [CHR 0x5C, CHR ''t'']
      else if (of_char c :: nat) < 32
        then [CHR 0x5C, CHR ''u'', CHR ''0'', CHR ''0'',
              hex_digit (of_char c div 16), hex_digit (of_char c mod 16)]
      else [c])"

definition json_quote :: "string \<Rightarrow> string" where
  "json_quote s = CHR 0x22 # concat (map json_escape_char s) @ [CHR 0x22]"

fun JSON_stringify :: "jsval \<Rightarrow> string option" where
  "JSON_stringify JUndefined = None"
| "JSON_stringify JNull = Some ''null''"
| "JSON_stringify (JBool b) = Some (string_of_bool b)"
| "JSON_stringify (JNum n) = Some (string_of_number n)"
| "JSON_stringify (JStr s) = Some (json_quote s)"
| "JSON_stringify (JArr xs) = None"
| "JSON_stringify (JObj es) = None"

text \<open>
  How a value that may be \<^verbatim>\<open>undefined\<close> is turned into text: \<^verbatim>\<open>join\<close> renders an
  \<^verbatim>\<open>undefined\<close> element as the empty string, a template literal as the word
  \<^verbatim>\<open>undefined\<close>.
\<close>

definition join_text :: "string option \<Rightarrow> string" where
  "join_text r = (case r of None \<Rightarrow> [] | Some s \<Rightarrow> s)"

definition template_text :: "string option \<Rightarrow> string" where
  "template_text r = (case r of None \<Rightarrow> ''undefined'' | Some s \<Rightarrow> s)"

section \<open>The unquoted serialisation\<close>

text \<open>
  \<^verbatim>\<open>ConfigStore.toUnquotedJson\<close>. An array is \<^verbatim>\<open>[\<close>, its items joined by commas,
  \<^verbatim>\<open>]\<close>. A non-null object keeps the entries whose value is not \<^verbatim>\<open>undefined\<close>
  and writes each as \<^verbatim>\<open>key:value\<close> with the key unquoted: a number or boolean bare,
  the string \<^verbatim>\<open>*\<close> bare, any other string between double quotes (not escaped), anything
  else by recursion. Everything else goes to \<^verbatim>\<open>JSON.stringify\<close>.
\<close>

fun toUnquotedJson :: "jsval \<Rightarrow> string option" where
  "toUnquotedJson (JArr xs) =
     Some (''['' @ join '','' (map (\<lambda>item. join_text (toUnquotedJson item)) xs) @ '']'')"
| "toUnquotedJson (JObj es) =
     Some (''{'' @ join '',''
        (map (\<lambda>(key, v).
            (case v of
               JNum n \<Rightarrow> key @ '':'' @ string_of_number n
             | JStr s \<Rightarrow> (if s = ''*'' then key @ '':*''
                          else key @ '':'' @ [CHR 0x22] @ s @ [CHR 0x22])
             | JBool b \<Rightarrow> key @ '':'' @ string_of_bool b
             | _ \<Rightarrow> key @ '':'' @ template_text (toUnquotedJson v)))
          (filter (\<lambda>(key, v). v \<noteq> JUndefined) es)) @ ''}'')"
| "toUnquotedJson v = JSON_stringify v"

section \<open>The data model\<close>

text \<open>
  \<^verbatim>\<open>ChaosProxyConfig\<close> of \<^verbatim>\<open>configStore.ts\<close>. An optional field
  (\<^verbatim>\<open>i?: number | '*'\<close>) is an \<open>option\<close>, \<open>None\<close> being \<^verbatim>\<open>undefined\<close>. The four
  descriptor shapes share the targeting fields \<^verbatim>\<open>i\<close>, \<^verbatim>\<open>sq\<close>, \<^verbatim>\<open>rsq\<close>, \<^verbatim>\<open>br\<close>;
  a timeout descriptor has no other field.
\<close>

datatype index_value = Index int | Wildcard

datatype protocol = Hls | Dash

datatype stream_type = Live | Vod

record targeting =
  i :: "index_value option"
  sq :: "int option"
  rsq :: "int option"
  br :: "int option"

record delay_corruption = targeting +
  l :: "int option"
  ms :: "int option"

record status_code_corruption = targeting +
  code :: "int option"

type_synonym timeout_corruption = targeting

record throttle_corruption = targeting +
  rate :: "int option"

text \<open>
  \<^verbatim>\<open>sourceUrl\<close> is declared a string, but \<^verbatim>\<open>generateProxyUrl\<close> tests
  \<^verbatim>\<open>!config.sourceUrl\<close>, which also covers a record without the property (one read from
  the file, say); the field is therefore optional here.
\<close>

record ChaosProxyConfig =
  name :: string
  instanceUrl :: string
  sourceUrl :: "string option"
  protocol :: protocol
  streamType :: "stream_type option"
  description :: "string option"
  delays :: "delay_corruption list"
  statusCodes :: "status_code_corruption list"
  timeouts :: "timeout_corruption list"
  throttles :: "throttle_corruption list"

fun protocol_string :: "protocol \<Rightarrow> string" where
  "protocol_string Hls = ''hls''"
| "protocol_string Dash = ''dash''"

fun js_index :: "index_value \<Rightarrow> jsval" where
  "js_index (Index n) = JNum n"
| "js_index Wildcard = JStr ''*''"

section \<open>The query encoder\<close>

text \<open>
  \<^verbatim>\<open>if (d.i !== undefined) obj.i = d.i\<close>: a property is added to the object under
  construction only when the descriptor has it.
\<close>

definition assign_defined :: "string \<Rightarrow> jsval option \<Rightarrow> (string \<times> jsval) list \<Rightarrow> (string \<times> jsval) list" where
  "assign_defined key v obj = (case v of None \<Rightarrow> obj | Some x \<Rightarrow> obj @ [(key, x)])"

definition targeting_object :: "'a targeting_scheme \<Rightarrow> (string \<times> jsval) list" where
  "targeting_object d =
     assign_defined ''br'' (map_option JNum (br d))
       (assign_defined ''rsq'' (map_option JNum (rsq d))
         (assign_defined ''sq'' (map_option JNum (sq d))
           (assign_defined ''i'' (map_option js_index (i d)) [])))"

definition delay_object :: "delay_corruption \<Rightarrow> jsval" where
  "delay_object d =
     JObj (assign_defined ''ms'' (map_option JNum (ms d))
            (assign_defined ''l'' (map_option JNum (l d)) (targeting_object d)))"

definition status_code_object :: "status_code_corruption \<Rightarrow> jsval" where
  "status_code_object d =
     JObj (assign_defined ''code'' (map_option JNum (code d)) (targeting_object d))"

definition timeout_object :: "timeout_corruption \<Rightarrow> jsval" where
  "timeout_object d = JObj (targeting_object d)"

definition throttle_object :: "throttle_corruption \<Rightarrow> jsval" where
  "throttle_object d =
     JObj (assign_defined ''rate'' (map_option JNum (rate d)) (targeting_object d))"

text \<open>\<^verbatim>\<open>!config.sourceUrl\<close>: the property is missing or the empty string.\<close>

definition no_sourceUrl :: "ChaosProxyConfig \<Rightarrow> bool" where
  "no_sourceUrl config = (case sourceUrl config of None \<Rightarrow> True | Some u \<Rightarrow> u = [])"

definition endpoint :: "protocol \<Rightarrow> string" where
  "endpoint p = (case p of Hls \<Rightarrow> ''/api/v2/manifests/hls/proxy-master.m3u8''
                         | Dash \<Rightarrow> ''/api/v2/manifests/dash/proxy-master.mpd'')"

text \<open>
  The list \<^verbatim>\<open>queryParts\<close> of \<^verbatim>\<open>generateProxyUrl\<close>: the source URL first, then one
  part for each corruption list of length above zero.
\<close>

definition queryParts :: "ChaosProxyConfig \<Rightarrow> string list" where
  "queryParts config =
     [''url='' @ template_text (sourceUrl config)]
     @ (if length (delays config) > 0
        then [''delay='' @ template_text (toUnquotedJson (JArr (map delay_object (delays config))))]
        else [])
     @ (if length (statusCodes config) > 0
        then [''statusCode='' @ template_text (toUnquotedJson (JArr (map status_code_object (statusCodes config))))]
        else [])
     @ (if length (timeouts config) > 0
        then [''timeout='' @ template_text (toUnquotedJson (JArr (map timeout_object (timeouts config))))]
        else [])
     @ (if length (throttles config) > 0
        then [''throttle='' @ template_text (toUnquotedJson (JArr (map throttle_object (throttles config))))]
        else [])"

text \<open>
  The body of \<^verbatim>\<open>generateProxyUrl\<close> once the record has been fetched: \<open>None\<close> is the
  \<^verbatim>\<open>null\<close> returned for a record without a source URL.
\<close>

definition encodeProxyUrl :: "ChaosProxyConfig \<Rightarrow> string option" where
  "encodeProxyUrl config =
     (if no_sourceUrl config then None
      else Some (instanceUrl config @ endpoint (protocol config) @ ''?''
                 @ join ''&'' (queryParts config)))"

text \<open>
  \<^verbatim>\<open>generateProxyUrl\<close> uses one serialisation per corruption list; this is the text
  written for one descriptor of each kind.
\<close>

definition encode_delay :: "delay_corruption \<Rightarrow> string" where
  "encode_delay d = template_text (toUnquotedJson (delay_object d))"

definition encode_status_code :: "status_code_corruption \<Rightarrow> string" where
  "encode_status_code d = template_text (toUnquotedJson (status_code_object d))"

definition encode_timeout :: "timeout_corruption \<Rightarrow> string" where
  "encode_timeout d = template_text (toUnquotedJson (timeout_object d))"

definition encode_throttle :: "throttle_corruption \<Rightarrow> string" where
  "encode_throttle d = template_text (toUnquotedJson (throttle_object d))"

section \<open>The configuration store\<close>

text \<open>
  The private \<^verbatim>\<open>Map<string, ChaosProxyConfig>\<close> is a list of (key, record) pairs in
  insertion order, which is the order \<^verbatim>\<open>Map.prototype.values\<close> iterates in.
  \<^verbatim>\<open>set\<close> on a key that is present replaces the value where it stands; on a new key it
  appends. \<^verbatim>\<open>delete\<close> removes the key and tells whether it was there. A Map holds a
  key once, and on a list with unique keys dropping every pair with the key is dropping
  its one entry; that the keys stay unique is part of the invariant proved below.
\<close>

type_synonym config_map = "(string \<times> ChaosProxyConfig) list"

definition js_map_has :: "string \<Rightarrow> config_map \<Rightarrow> bool" where
  "js_map_has k m = (map_of m k \<noteq> None)"

definition js_map_get :: "string \<Rightarrow> config_map \<Rightarrow> ChaosProxyConfig option" where
  "js_map_get k m = map_of m k"

fun js_map_set :: "string \<Rightarrow> ChaosProxyConfig \<Rightarrow> config_map \<Rightarrow> config_map" where
  "js_map_set k v [] = [(k, v)]"
| "js_map_set k v ((k', v') # m) =
     (if k' = k then (k, v) # m else (k', v') # js_map_set k v m)"

definition js_map_delete :: "string \<Rightarrow> config_map \<Rightarrow> config_map" where
  "js_map_delete k m = filter (\<lambda>e. fst e \<noteq> k) m"

definition js_map_values :: "config_map \<Rightarrow> ChaosProxyConfig list" where
  "js_map_values m = map snd m"

text \<open>
  The file \<^verbatim>\<open>chaos-configs.json\<close>: missing, unreadable (the read or \<^verbatim>\<open>JSON.parse\<close>
  throws), or holding an array of records. Writing a list of records as JSON and parsing
  it back is taken to give the same list. \<open>write_ok\<close> tells whether
  \<^verbatim>\<open>fs.writeFileSync\<close> succeeds; when it throws, \<^verbatim>\<open>saveToFile\<close> only logs.
  Console output and the base URL of the short links are left out.
\<close>

datatype file_content = Missing | Unreadable | Content "ChaosProxyConfig list"

record ConfigStore =
  configs :: config_map
  config_file :: file_content
  write_ok :: bool

definition getKey :: "string \<Rightarrow> protocol \<Rightarrow> string" where
  "getKey nm p = nm @ '':'' @ protocol_string p"

definition loadFromFile :: "ConfigStore \<Rightarrow> ConfigStore" where
  "loadFromFile s =
     (case config_file s of
        Content cs \<Rightarrow>
          s\<lparr>configs := foldl (\<lambda>m config. js_map_set (getKey (name config) (protocol config)) config m)
                              (configs s) cs\<rparr>
      | _ \<Rightarrow> s)"

text \<open>The constructor: an empty map, filled from the file.\<close>

definition new_ConfigStore :: "file_content \<Rightarrow> bool \<Rightarrow> ConfigStore" where
  "new_ConfigStore f w = loadFromFile \<lparr>configs = [], config_file = f, write_ok = w\<rparr>"

definition saveToFile :: "ConfigStore \<Rightarrow> ConfigStore" where
  "saveToFile s =
     (if write_ok s then s\<lparr>config_file := Content (rev (js_map_values (configs s)))\<rparr> else s)"

definition saveConfig :: "ChaosProxyConfig \<Rightarrow> ConfigStore \<Rightarrow> ConfigStore" where
  "saveConfig config s =
     (let key = getKey (name config) (protocol config);
          m = (if js_map_has key (configs s) then js_map_delete key (configs s) else configs s)
      in saveToFile (s\<lparr>configs := js_map_set key config m\<rparr>))"

definition getConfig :: "string \<Rightarrow> protocol \<Rightarrow> ConfigStore \<Rightarrow> ChaosProxyConfig option" where
  "getConfig nm p s = js_map_get (getKey nm p) (configs s)"

definition listConfigs :: "ConfigStore \<Rightarrow> ChaosProxyConfig list" where
  "listConfigs s = rev (js_map_values (configs s))"

definition deleteConfig :: "string \<Rightarrow> protocol \<Rightarrow> ConfigStore \<Rightarrow> bool \<times> ConfigStore" where
  "deleteConfig nm p s =
     (let key = getKey nm p;
          deleted = js_map_has key (configs s)
      in if deleted then (True, saveToFile (s\<lparr>configs := js_map_delete key (configs s)\<rparr>))
         else (False, s))"

definition hasConfig :: "string \<Rightarrow> protocol \<Rightarrow> ConfigStore \<Rightarrow> bool" where
  "hasConfig nm p s = js_map_has (getKey nm p) (configs s)"

definition generateProxyUrl :: "string \<Rightarrow> protocol \<Rightarrow> ConfigStore \<Rightarrow> string option" where
  "generateProxyUrl nm p s =
     (case getConfig nm p s of None \<Rightarrow> None | Some config \<Rightarrow> encodeProxyUrl config)"

text \<open>
  A restart of the process: the module builds a new store, which reads the file the
  previous one left.
\<close>

definition restart :: "ConfigStore \<Rightarrow> ConfigStore" where
  "restart s = new_ConfigStore (config_file s) (write_ok s)"

text \<open>
  What holds of the map in every store the code can build: a key occurs once, and it is
  the key of the record stored under it.
\<close>

definition keyed :: "config_map \<Rightarrow> bool" where
  "keyed m = list_all (\<lambda>e. fst e = getKey (name (snd e)) (protocol (snd e))) m"

definition store_inv :: "ConfigStore \<Rightarrow> bool" where
  "store_inv s = (distinct (map fst (configs s)) \<and> keyed (configs s))"

section \<open>The routes\<close>

text \<open>
  A response is what the handler sends: \<^verbatim>\<open>res.status(n).json({error, message})\<close>,
  \<^verbatim>\<open>res.json({success: true, message})\<close>, \<^verbatim>\<open>res.status(n).send(text)\<close> or
  \<^verbatim>\<open>res.redirect(n, url)\<close>.
\<close>

datatype response =
    ErrorJson nat string string
  | SuccessJson string
  | SendText nat string
  | Redirect nat string

text \<open>
  The body of \<^verbatim>\<open>POST /api/config\<close>; every property may be missing. \<^verbatim>\<open>!name\<close> holds
  of a missing property and of the empty string. A property that is present has the type
  \<^verbatim>\<open>ChaosProxyConfig\<close> declares for it. Nothing in the handlers modelled here throws, so
  their \<^verbatim>\<open>catch\<close> branches (the answer 500 "Internal server error") are not reached and
  are left out.
\<close>

record save_body =
  body_name :: "string option"
  body_instanceUrl :: "string option"
  body_sourceUrl :: "string option"
  body_protocol :: "protocol option"
  body_streamType :: "stream_type option"
  body_description :: "string option"
  body_delays :: "delay_corruption list option"
  body_statusCodes :: "status_code_corruption list option"
  body_timeouts :: "timeout_corruption list option"
  body_throttles :: "throttle_corruption list option"

definition falsy_string :: "string option \<Rightarrow> bool" where
  "falsy_string v = (case v of None \<Rightarrow> True | Some x \<Rightarrow> x = [])"

text \<open>The test \<^verbatim>\<open>/^[a-zA-Z0-9_-]+$/.test(name)\<close>.\<close>

definition name_char :: "char \<Rightarrow> bool" where
  "name_char c =
     (let n = (of_char c :: nat)
      in (97 \<le> n \<and> n \<le> 122) \<or> (65 \<le> n \<and> n \<le> 90) \<or> (48 \<le> n \<and> n \<le> 57)
         \<or> c = CHR ''_'' \<or> c = CHR ''-'')"

definition name_format_ok :: "string \<Rightarrow> bool" where
  "name_format_ok nm = (nm \<noteq> [] \<and> list_all name_char nm)"

definition or_default :: "'a option \<Rightarrow> 'a \<Rightarrow> 'a" where
  "or_default v d = (case v of None \<Rightarrow> d | Some x \<Rightarrow> x)"

definition post_config :: "save_body \<Rightarrow> ConfigStore \<Rightarrow> response \<times> ConfigStore" where
  "post_config b s =
     (if falsy_string (body_name b) \<or> falsy_string (body_instanceUrl b)
         \<or> falsy_string (body_sourceUrl b) \<or> body_protocol b = None
      then (ErrorJson 400 ''Invalid request''
              ''name, instanceUrl, sourceUrl, and protocol are required'', s)
      else if \<not> name_format_ok (the (body_name b))
      then (ErrorJson 400 ''Invalid name''
              ''Configuration name must contain only letters, numbers, hyphens, and underscores'', s)
      else
        (SuccessJson (''Configuration '' @ [CHR 0x27] @ the (body_name b) @ [CHR 0x27] @ '' (''
                      @ protocol_string (the (body_protocol b)) @ '') saved''),
         saveConfig
           \<lparr>name = the (body_name b),
            instanceUrl = the (body_instanceUrl b),
            sourceUrl = body_sourceUrl b,
            protocol = the (body_protocol b),
            streamType = Some (or_default (body_streamType b) Live),
            description = body_description b,
            delays = or_default (body_delays b) [],
            statusCodes = or_default (body_statusCodes b) [],
            timeouts = or_default (body_timeouts b) [],
            throttles = or_default (body_throttles b) []\<rparr> s))"

text \<open>
  \<^verbatim>\<open>GET /redirect/:filename\<close>. Besides the response, the model returns the calls the
  handler made on the store, in order, so that "before any lookup" and "without
  generating" can be stated. The handler changes nothing in the store, so no store is
  returned. \<open>resolve\<close> is the handler from the lookup on, once the name and the protocol
  have been read off the filename.
\<close>

datatype store_call = Call_getConfig string protocol | Call_generateProxyUrl string protocol

definition endsWith :: "string \<Rightarrow> string \<Rightarrow> bool" where
  "endsWith str suffix =
     (length suffix \<le> length str \<and> drop (length str - length suffix) str = suffix)"

text \<open>\<^verbatim>\<open>str.slice(0, -k)\<close>.\<close>

definition slice_off :: "nat \<Rightarrow> string \<Rightarrow> string" where
  "slice_off k str = take (length str - k) str"

definition upper_char :: "char \<Rightarrow> char" where
  "upper_char c =
     (let n = (of_char c :: nat) in if 97 \<le> n \<and> n \<le> 122 then char_of (n - 32) else c)"

definition toUpperCase :: "string \<Rightarrow> string" where
  "toUpperCase str = map upper_char str"

definition not_found_text :: "string \<Rightarrow> protocol \<Rightarrow> string" where
  "not_found_text nm p =
     ''Configuration '' @ [CHR 0x27] @ nm @ [CHR 0x27] @ '' for '' @ toUpperCase (protocol_string p)
     @ '' not found. '' @ ''Please create a configuration with this name and protocol first.''"

definition resolve :: "string \<Rightarrow> protocol \<Rightarrow> ConfigStore \<Rightarrow> response \<times> store_call list" where
  "resolve nm p s =
     (case getConfig nm p s of
        None \<Rightarrow> (SendText 404 (not_found_text nm p), [Call_getConfig nm p])
      | Some config \<Rightarrow>
          (case generateProxyUrl nm p s of
             None \<Rightarrow> (SendText 500 ''Failed to generate proxy URL'',
                       [Call_getConfig nm p, Call_generateProxyUrl nm p])
           | Some proxyUrl \<Rightarrow> (Redirect 302 proxyUrl,
                       [Call_getConfig nm p, Call_generateProxyUrl nm p])))"

definition get_redirect :: "string \<Rightarrow> ConfigStore \<Rightarrow> response \<times> store_call list" where
  "get_redirect filename s =
     (if endsWith filename ''.m3u8'' then resolve (slice_off 5 filename) Hls s
      else if endsWith filename ''.mpd'' then resolve (slice_off 4 filename) Dash s
      else (SendText 400 ''Invalid filename. Use .m3u8 for HLS or .mpd for DASH'', []))"

text \<open>The extension of the short link of a protocol.\<close>

definition extension :: "protocol \<Rightarrow> string" where
  "extension p = (case p of Hls \<Rightarrow> ''.m3u8'' | Dash \<Rightarrow> ''.mpd'')"

section \<open>What the specification says, written down\<close>

text \<open>
  The specification's description of one serialised descriptor: the fields that are set,
  in the order \<^verbatim>\<open>i\<close>, \<^verbatim>\<open>sq\<close>, \<^verbatim>\<open>rsq\<close>, \<^verbatim>\<open>br\<close> and then the fields of the kind,
  each as \<^verbatim>\<open>key:value\<close> with a bare key, a bare number or a bare \<^verbatim>\<open>*\<close>, separated by
  commas between braces. These definitions follow the specification, not the code; the
  code is compared with them below.
\<close>

definition spec_index_text :: "index_value \<Rightarrow> string" where
  "spec_index_text v = (case v of Index n \<Rightarrow> string_of_number n | Wildcard \<Rightarrow> ''*'')"

definition spec_field :: "string \<Rightarrow> string option \<Rightarrow> string list" where
  "spec_field key text = (case text of None \<Rightarrow> [] | Some t \<Rightarrow> [key @ '':'' @ t])"

definition spec_object :: "string list list \<Rightarrow> string" where
  "spec_object parts = ''{'' @ join '','' (concat parts) @ ''}''"

definition spec_targeting :: "'a targeting_scheme \<Rightarrow> string list list" where
  "spec_targeting d =
     [spec_field ''i'' (map_option spec_index_text (i d)),
      spec_field ''sq'' (map_option string_of_number (sq d)),
      spec_field ''rsq'' (map_option string_of_number (rsq d)),
      spec_field ''br'' (map_option string_of_number (br d))]"

text \<open>
  The specification's description of one corruption parameter of the query string:
  nothing for an empty list, otherwise \<^verbatim>\<open>&name=[...]\<close> around the serialised
  descriptors.
\<close>

definition spec_param :: "string \<Rightarrow> string list \<Rightarrow> string" where
  "spec_param pname items =
     (if items = [] then [] else ''&'' @ pname @ ''=['' @ join '','' items @ '']'')"

text \<open>
  The life of a store as a list of events, and the order the specification promises
  for \<^verbatim>\<open>list()\<close> after them: most recently saved first, a saved record replacing the
  one with its name and protocol, a deleted one leaving, a restart changing nothing.
\<close>

datatype event = Save ChaosProxyConfig | Delete string protocol | Restart

fun apply_event :: "ConfigStore \<Rightarrow> event \<Rightarrow> ConfigStore" where
  "apply_event s (Save config) = saveConfig config s"
| "apply_event s (Delete nm p) = snd (deleteConfig nm p s)"
| "apply_event s Restart = restart s"

definition run_events :: "event list \<Rightarrow> ConfigStore \<Rightarrow> ConfigStore" where
  "run_events es s = foldl apply_event s es"

definition has_key :: "string \<Rightarrow> protocol \<Rightarrow> ChaosProxyConfig \<Rightarrow> bool" where
  "has_key nm p config = (name config = nm \<and> protocol config = p)"

fun spec_list_after :: "ChaosProxyConfig list \<Rightarrow> event \<Rightarrow> ChaosProxyConfig list" where
  "spec_list_after cs (Save config) =
     config # filter (\<lambda>c. \<not> has_key (name config) (protocol config) c) cs"
| "spec_list_after cs (Delete nm p) = filter (\<lambda>c. \<not> has_key nm p c) cs"
| "spec_list_after cs Restart = cs"

definition spec_recent_first :: "event list \<Rightarrow> ChaosProxyConfig list" where
  "spec_recent_first es = foldl spec_list_after [] es"

section \<open>Sample data\<close>

definition sample_config :: "string \<Rightarrow> protocol \<Rightarrow> int \<Rightarrow> ChaosProxyConfig" where
  "sample_config nm p delay_ms =
     \<lparr>name = nm, instanceUrl = ''https://chaos.example'',
      sourceUrl = Some ''https://cdn.example/master.m3u8'', protocol = p,
      streamType = Some Live, description = None,
      delays = [\<lparr>i = Some Wildcard, sq = None, rsq = None, br = None, l = None, ms = Some delay_ms\<rparr>],
      statusCodes = [], timeouts = [], throttles = []\<rparr>"

definition empty_store :: ConfigStore where
  "empty_store = new_ConfigStore Missing True"

section \<open>The serialisation of a descriptor\<close>

text \<open>
  The text of one object entry and the entries kept, as \<^verbatim>\<open>toUnquotedJson\<close> has them
  inline, named for the proofs.
\<close>

definition entry_text :: "string \<times> jsval \<Rightarrow> string" where
  "entry_text = (\<lambda>(key, v).
            (case v of
               JNum n \<Rightarrow> key @ '':'' @ string_of_number n
             | JStr s \<Rightarrow> (if s = ''*'' then key @ '':*''
                          else key @ '':'' @ [CHR 0x22] @ s @ [CHR 0x22])
             | JBool b \<Rightarrow> key @ '':'' @ string_of_bool b
             | _ \<Rightarrow> key @ '':'' @ template_text (toUnquotedJson v)))"

definition defined_entries :: "(string \<times> jsval) list \<Rightarrow> (string \<times> jsval) list" where
  "defined_entries es = filter (\<lambda>(key, v). v \<noteq> JUndefined) es"

section \<open>Keys and the map\<close>

text \<open>
  The key \<^verbatim>\<open>`${name}:${protocol}`\<close> determines both of its parts: the two protocol
  words end in different letters, so the text after the last colon tells the protocol
  and the rest is the name, whatever characters the name has.
\<close>

lemma getKey_inject: "getKey n1 p1 = getKey n2 p2 \<longleftrightarrow> n1 = n2 \<and> p1 = p2"
proof
  assume h: "getKey n1 p1 = getKey n2 p2"
  have "last (getKey n1 p1) = last (getKey n2 p2)" using h by simp
  then have p: "p1 = p2" by (cases p1; cases p2) (simp_all add: getKey_def)
  with h show "n1 = n2 \<and> p1 = p2" by (simp add: getKey_def)
next
  assume "n1 = n2 \<and> p1 = p2" then show "getKey n1 p1 = getKey n2 p2" by simp
qed

lemma map_of_js_map_set:
  "map_of (js_map_set k v m) k' = (if k' = k then Some v else map_of m k')"
  by (induction m) auto

lemma map_of_js_map_delete:
  "map_of (js_map_delete k m) k' = (if k' = k then None else map_of m k')"
  by (induction m) (auto simp: js_map_delete_def)

lemma js_map_has_iff: "js_map_has k m \<longleftrightarrow> k \<in> fst ` set m"
  by (simp add: js_map_has_def map_of_eq_None_iff)

lemma js_map_set_fresh: "k \<notin> fst ` set m \<Longrightarrow> js_map_set k v m = m @ [(k, v)]"
  by (induction m) auto

lemma js_map_delete_absent: "\<not> js_map_has k m \<Longrightarrow> js_map_delete k m = m"
  by (induction m) (auto simp: js_map_delete_def js_map_has_def split: if_splits)

lemma fst_js_map_delete: "k \<notin> fst ` set (js_map_delete k m)"
  by (auto simp: js_map_delete_def)

text \<open>
  Whether the key was present or not, \<^verbatim>\<open>saveConfig\<close> leaves the map without the old
  entry and with the new one last.
\<close>

lemma configs_saveConfig:
  "configs (saveConfig c s) =
     js_map_delete (getKey (name c) (protocol c)) (configs s) @ [(getKey (name c) (protocol c), c)]"
  by (cases "js_map_has (getKey (name c) (protocol c)) (configs s)")
     (simp_all add: saveConfig_def saveToFile_def Let_def js_map_set_fresh fst_js_map_delete
        js_map_delete_absent js_map_has_iff)

lemma configs_deleteConfig:
  "configs (snd (deleteConfig nm p s)) = js_map_delete (getKey nm p) (configs s)"
  by (cases "js_map_has (getKey nm p) (configs s)")
     (simp_all add: deleteConfig_def saveToFile_def Let_def js_map_delete_absent)

lemma getConfig_saveConfig:
  "getConfig nm p (saveConfig c s) =
     (if nm = name c \<and> p = protocol c then Some c else getConfig nm p s)"
  by (auto simp: getConfig_def js_map_get_def configs_saveConfig map_of_append map_add_def
        map_of_js_map_delete getKey_inject split: option.splits)

lemma getConfig_deleteConfig:
  "getConfig nm p (snd (deleteConfig nm' p' s)) =
     (if nm = nm' \<and> p = p' then None else getConfig nm p s)"
  by (simp add: getConfig_def js_map_get_def configs_deleteConfig map_of_js_map_delete getKey_inject)

section \<open>The invariant of the store\<close>

lemma keys_js_map_set:
  "map fst (js_map_set k v m) = (if k \<in> fst ` set m then map fst m else map fst m @ [k])"
proof (induction m)
  case Nil
  show ?case by simp
next
  case (Cons e m)
  obtain k' v' where e: "e = (k', v')" by (cases e)
  show ?case using Cons.IH by (cases "k \<in> fst ` set m") (simp_all add: e)
qed

lemma fst_set_js_map_set: "fst ` set (js_map_set k v m) = insert k (fst ` set m)"
proof -
  have "set (map fst (js_map_set k v m)) = insert k (fst ` set m)"
    unfolding keys_js_map_set by auto
  then show ?thesis by simp
qed

lemma keyed_append: "keyed (m @ m') \<longleftrightarrow> keyed m \<and> keyed m'"
  by (simp add: keyed_def)

lemma keyed_single: "keyed [(k, c)] \<longleftrightarrow> k = getKey (name c) (protocol c)"
  by (simp add: keyed_def)


lemma distinct_js_map_set: "distinct (map fst m) \<Longrightarrow> distinct (map fst (js_map_set k v m))"
  by (simp add: keys_js_map_set)

lemma keyed_js_map_set:
  "keyed m \<Longrightarrow> k = getKey (name v) (protocol v) \<Longrightarrow> keyed (js_map_set k v m)"
  by (induction m) (auto simp: keyed_def)

lemma distinct_js_map_delete: "distinct (map fst m) \<Longrightarrow> distinct (map fst (js_map_delete k m))"
  by (simp add: js_map_delete_def distinct_map_filter)

lemma keyed_js_map_delete: "keyed m \<Longrightarrow> keyed (js_map_delete k m)"
  by (simp add: keyed_def js_map_delete_def list_all_iff)

lemma load_fold_inv:
  "distinct (map fst m) \<Longrightarrow> keyed m \<Longrightarrow>
   distinct (map fst (foldl (\<lambda>m c. js_map_set (getKey (name c) (protocol c)) c m) m cs))
   \<and> keyed (foldl (\<lambda>m c. js_map_set (getKey (name c) (protocol c)) c m) m cs)"
  by (induction cs arbitrary: m) (simp_all add: distinct_js_map_set keyed_js_map_set)

lemma store_inv_new_ConfigStore: "store_inv (new_ConfigStore f w)"
proof (cases f)
  case (Content cs)
  then show ?thesis
    using load_fold_inv [of "[]" cs]
    by (simp add: store_inv_def new_ConfigStore_def loadFromFile_def keyed_def)
qed (simp_all add: store_inv_def new_ConfigStore_def loadFromFile_def keyed_def)

lemma store_inv_saveConfig: "store_inv s \<Longrightarrow> store_inv (saveConfig c s)"
  by (simp add: store_inv_def configs_saveConfig distinct_js_map_delete keyed_js_map_delete
        fst_js_map_delete keyed_append keyed_single)

lemma store_inv_deleteConfig: "store_inv s \<Longrightarrow> store_inv (snd (deleteConfig nm p s))"
  by (simp add: store_inv_def configs_deleteConfig distinct_js_map_delete keyed_js_map_delete)

lemma load_fold_fresh:
  "distinct (map fst m @ map (\<lambda>c. getKey (name c) (protocol c)) cs) \<Longrightarrow>
   foldl (\<lambda>m c. js_map_set (getKey (name c) (protocol c)) c m) m cs
     = m @ map (\<lambda>c. (getKey (name c) (protocol c), c)) cs"
proof (induction cs arbitrary: m)
  case Nil
  then show ?case by simp
next
  case (Cons c cs)
  have fresh: "getKey (name c) (protocol c) \<notin> fst ` set m" using Cons.prems by auto
  have "distinct (map fst (m @ [(getKey (name c) (protocol c), c)])
           @ map (\<lambda>c. getKey (name c) (protocol c)) cs)"
    using Cons.prems by auto
  from Cons.IH [OF this] show ?case by (simp add: js_map_set_fresh [OF fresh])
qed

lemma keyed_map_snd: "keyed m \<Longrightarrow> map (\<lambda>c. (getKey (name c) (protocol c), c)) (map snd m) = m"
  by (induction m) (auto simp: keyed_def)

lemma keyed_keys: "keyed m \<Longrightarrow> map (\<lambda>c. getKey (name c) (protocol c)) (map snd m) = map fst m"
  by (induction m) (auto simp: keyed_def)

lemma configs_reload:
  assumes "store_inv s" "write_ok s"
  shows "configs (restart (saveToFile s)) = rev (configs s)"
proof -
  let ?cs = "rev (map snd (configs s))"
  have d: "distinct (map fst ([]::config_map) @ map (\<lambda>c. getKey (name c) (protocol c)) ?cs)"
    using assms(1) keyed_keys [of "configs s"]
    by (simp add: store_inv_def rev_map [symmetric] del: map_map)
  have "configs (restart (saveToFile s))
          = foldl (\<lambda>m c. js_map_set (getKey (name c) (protocol c)) c m) [] ?cs"
    using assms(2) by (simp add: restart_def saveToFile_def new_ConfigStore_def loadFromFile_def js_map_values_def)
  also have "\<dots> = map (\<lambda>c. (getKey (name c) (protocol c), c)) ?cs"
    using load_fold_fresh [OF d] by simp
  also have "\<dots> = rev (configs s)"
    using assms(1) keyed_map_snd [of "configs s"] by (simp add: store_inv_def rev_map [symmetric] del: map_map)
  finally show ?thesis .
qed

section \<open>The encoder against the specification\<close>

lemma toUnquotedJson_JObj:
  "toUnquotedJson (JObj es) = Some (''{'' @ join '','' (map entry_text (defined_entries es)) @ ''}'')"
  by (simp add: entry_text_def defined_entries_def)

lemma entries_assign_number:
  "map entry_text (defined_entries (assign_defined key (map_option JNum v) obj))
     = map entry_text (defined_entries obj) @ spec_field key (map_option string_of_number v)"
  by (cases v) (simp_all add: assign_defined_def spec_field_def entry_text_def defined_entries_def)

lemma entries_assign_index:
  "map entry_text (defined_entries (assign_defined key (map_option js_index v) obj))
     = map entry_text (defined_entries obj) @ spec_field key (map_option spec_index_text v)"
proof (cases v)
  case None
  then show ?thesis by (simp add: assign_defined_def spec_field_def)
next
  case (Some x)
  then show ?thesis
    by (cases x) (simp_all add: assign_defined_def spec_field_def entry_text_def defined_entries_def spec_index_text_def)
qed

lemma defined_entries_Nil: "defined_entries [] = []"
  by (simp add: defined_entries_def)

lemma entries_targeting:
  "map entry_text (defined_entries (targeting_object d)) = concat (spec_targeting d)"
  by (simp add: targeting_object_def spec_targeting_def entries_assign_number entries_assign_index defined_entries_Nil)

lemma encode_delay_spec:
  "encode_delay d = spec_object (spec_targeting d @
       [spec_field ''l'' (map_option string_of_number (l d)),
        spec_field ''ms'' (map_option string_of_number (ms d))])"
  by (simp add: encode_delay_def delay_object_def toUnquotedJson_JObj template_text_def
        entries_assign_number entries_targeting spec_object_def del: toUnquotedJson.simps)

lemma encode_status_code_spec:
  "encode_status_code d = spec_object (spec_targeting d @
       [spec_field ''code'' (map_option string_of_number (code d))])"
  by (simp add: encode_status_code_def status_code_object_def toUnquotedJson_JObj template_text_def
        entries_assign_number entries_targeting spec_object_def del: toUnquotedJson.simps)

lemma encode_timeout_spec:
  "encode_timeout d = spec_object (spec_targeting d)"
  by (simp add: encode_timeout_def timeout_object_def toUnquotedJson_JObj template_text_def
        entries_targeting spec_object_def del: toUnquotedJson.simps)

lemma encode_throttle_spec:
  "encode_throttle d = spec_object (spec_targeting d @
       [spec_field ''rate'' (map_option string_of_number (rate d))])"
  by (simp add: encode_throttle_def throttle_object_def toUnquotedJson_JObj template_text_def
        entries_assign_number entries_targeting spec_object_def del: toUnquotedJson.simps)

text \<open>
  No text the encoder writes for a descriptor holds a double quote: digits, a minus sign,
  the star, the keys and the punctuation do not.
\<close>

lemma digit_char_not_quote: "d < 10 \<Longrightarrow> digit_char d \<noteq> CHR 0x22"
proof -
  assume "d < 10"
  then have "digit_char d \<in> set ''0123456789''"
    unfolding digit_char_def by (intro nth_mem) simp
  then show ?thesis by auto
qed

lemma string_of_nat_no_quote: "CHR 0x22 \<notin> set (string_of_nat n)"
proof (induction n rule: string_of_nat.induct)
  case (1 n)
  show ?case
  proof (cases "n < 10")
    case True
    then show ?thesis using digit_char_not_quote [of n] by (subst string_of_nat.simps) auto
  next
    case False
    then show ?thesis using 1 digit_char_not_quote [of "n mod 10"]
      by (subst string_of_nat.simps) auto
  qed
qed

lemma string_of_number_no_quote: "CHR 0x22 \<notin> set (string_of_number n)"
  by (simp add: string_of_number_def string_of_nat_no_quote)

lemma set_join: "set (join sep xs) \<subseteq> set sep \<union> \<Union> (set ` set xs)"
  by (induction sep xs rule: join.induct) auto

lemma spec_field_number_no_quote:
  "CHR 0x22 \<notin> set key \<Longrightarrow> x \<in> set (spec_field key (map_option string_of_number v)) \<Longrightarrow> CHR 0x22 \<notin> set x"
  by (cases v) (auto simp: spec_field_def string_of_number_no_quote)

lemma spec_field_index_no_quote:
  "CHR 0x22 \<notin> set key \<Longrightarrow> x \<in> set (spec_field key (map_option spec_index_text v)) \<Longrightarrow> CHR 0x22 \<notin> set x"
  by (cases v) (auto simp: spec_field_def spec_index_text_def string_of_number_no_quote split: index_value.splits)

lemma spec_object_no_quote:
  assumes "\<And>p x. p \<in> set parts \<Longrightarrow> x \<in> set p \<Longrightarrow> CHR 0x22 \<notin> set x"
  shows "CHR 0x22 \<notin> set (spec_object parts)"
proof -
  have "CHR 0x22 \<notin> \<Union> (set ` set (concat parts))" using assms by auto
  then show ?thesis using set_join [of "'',''" "concat parts"] by (auto simp: spec_object_def)
qed

lemma spec_targeting_no_quote:
  assumes "p \<in> set (spec_targeting d)" "x \<in> set p"
  shows "CHR 0x22 \<notin> set x"
proof -
  have k: "CHR 0x22 \<notin> set ''i''" "CHR 0x22 \<notin> set ''sq''" "CHR 0x22 \<notin> set ''rsq''" "CHR 0x22 \<notin> set ''br''"
    by simp_all
  from assms(1) consider "p = spec_field ''i'' (map_option spec_index_text (i d))"
    | "p = spec_field ''sq'' (map_option string_of_number (sq d))"
    | "p = spec_field ''rsq'' (map_option string_of_number (rsq d))"
    | "p = spec_field ''br'' (map_option string_of_number (br d))"
    by (auto simp: spec_targeting_def)
  then show ?thesis
  proof cases
    case 1 then show ?thesis using assms(2) spec_field_index_no_quote [OF k(1)] by blast
  next
    case 2 then show ?thesis using assms(2) spec_field_number_no_quote [OF k(2)] by blast
  next
    case 3 then show ?thesis using assms(2) spec_field_number_no_quote [OF k(3)] by blast
  next
    case 4 then show ?thesis using assms(2) spec_field_number_no_quote [OF k(4)] by blast
  qed
qed

lemma number_field_no_quote:
  assumes "CHR 0x22 \<notin> set key"
  shows "\<forall>x \<in> set (spec_field key (map_option string_of_number v)). CHR 0x22 \<notin> set x"
  using spec_field_number_no_quote [OF assms] by blast

lemma targeting_no_quote:
  "\<forall>p \<in> set (spec_targeting d). \<forall>x \<in> set p. CHR 0x22 \<notin> set x"
  using spec_targeting_no_quote by blast

lemma spec_object_no_quote':
  assumes "\<forall>p \<in> set parts. \<forall>x \<in> set p. CHR 0x22 \<notin> set x"
  shows "CHR 0x22 \<notin> set (spec_object parts)"
  using assms by (intro spec_object_no_quote) blast

lemma encode_status_code_no_quote: "CHR 0x22 \<notin> set (encode_status_code d)"
  unfolding encode_status_code_spec
  using targeting_no_quote [of d] number_field_no_quote [of "''code''" "code d"]
  by (intro spec_object_no_quote') simp

lemma encode_timeout_no_quote: "CHR 0x22 \<notin> set (encode_timeout d)"
  unfolding encode_timeout_spec
  using targeting_no_quote [of d]
  by (intro spec_object_no_quote') simp

lemma encode_throttle_no_quote: "CHR 0x22 \<notin> set (encode_throttle d)"
  unfolding encode_throttle_spec
  using targeting_no_quote [of d] number_field_no_quote [of "''rate''" "rate d"]
  by (intro spec_object_no_quote') simp

lemma encode_delay_no_quote: "CHR 0x22 \<notin> set (encode_delay d)"
  unfolding encode_delay_spec
  using targeting_no_quote [of d] number_field_no_quote [of "''l''" "l d"] number_field_no_quote [of "''ms''" "ms d"]
  by (intro spec_object_no_quote') simp

lemma join_Cons: "join sep (x # ys) = x @ concat (map (\<lambda>y. sep @ y) ys)"
  by (induction sep ys arbitrary: x rule: join.induct) simp_all

lemma toUnquotedJson_delay_object: "toUnquotedJson (delay_object d) = Some (encode_delay d)"
  by (simp add: encode_delay_def delay_object_def template_text_def)
lemma toUnquotedJson_status_code_object: "toUnquotedJson (status_code_object d) = Some (encode_status_code d)"
  by (simp add: encode_status_code_def status_code_object_def template_text_def)
lemma toUnquotedJson_timeout_object: "toUnquotedJson (timeout_object d) = Some (encode_timeout d)"
  by (simp add: encode_timeout_def timeout_object_def template_text_def)
lemma toUnquotedJson_throttle_object: "toUnquotedJson (throttle_object d) = Some (encode_throttle d)"
  by (simp add: encode_throttle_def throttle_object_def template_text_def)

lemma array_of_delays:
  "toUnquotedJson (JArr (map delay_object ds)) = Some (''['' @ join '','' (map encode_delay ds) @ '']'')"
  by (simp add: toUnquotedJson_delay_object join_text_def comp_def)
lemma array_of_status_codes:
  "toUnquotedJson (JArr (map status_code_object ds)) = Some (''['' @ join '','' (map encode_status_code ds) @ '']'')"
  by (simp add: toUnquotedJson_status_code_object join_text_def comp_def)
lemma array_of_timeouts:
  "toUnquotedJson (JArr (map timeout_object ds)) = Some (''['' @ join '','' (map encode_timeout ds) @ '']'')"
  by (simp add: toUnquotedJson_timeout_object join_text_def comp_def)
lemma array_of_throttles:
  "toUnquotedJson (JArr (map throttle_object ds)) = Some (''['' @ join '','' (map encode_throttle ds) @ '']'')"
  by (simp add: toUnquotedJson_throttle_object join_text_def comp_def)

lemma query_text:
  "join ''&'' (queryParts c) =
     ''url='' @ template_text (sourceUrl c)
     @ spec_param ''delay'' (map encode_delay (delays c))
     @ spec_param ''statusCode'' (map encode_status_code (statusCodes c))
     @ spec_param ''timeout'' (map encode_timeout (timeouts c))
     @ spec_param ''throttle'' (map encode_throttle (throttles c))"
  by (simp add: queryParts_def join_Cons spec_param_def array_of_delays array_of_status_codes
        array_of_timeouts array_of_throttles template_text_def del: toUnquotedJson.simps)

section \<open>The list and the short links\<close>

lemma keyed_values_delete:
  "keyed m \<Longrightarrow> map snd (js_map_delete (getKey nm p) m) = filter (\<lambda>c. \<not> has_key nm p c) (map snd m)"
  by (induction m) (auto simp: keyed_def js_map_delete_def has_key_def getKey_inject)

lemma listConfigs_saveConfig:
  "store_inv s \<Longrightarrow>
   listConfigs (saveConfig c s) = c # filter (\<lambda>c'. \<not> has_key (name c) (protocol c) c') (listConfigs s)"
  by (simp add: listConfigs_def js_map_values_def configs_saveConfig store_inv_def
        keyed_values_delete rev_filter)

lemma listConfigs_deleteConfig:
  "store_inv s \<Longrightarrow>
   listConfigs (snd (deleteConfig nm p s)) = filter (\<lambda>c'. \<not> has_key nm p c') (listConfigs s)"
  by (simp add: listConfigs_def js_map_values_def configs_deleteConfig store_inv_def
        keyed_values_delete rev_filter)

lemma toUpperCase_protocol:
  "toUpperCase (protocol_string p) = (case p of Hls \<Rightarrow> ''HLS'' | Dash \<Rightarrow> ''DASH'')"
proof -
  have "toUpperCase ''hls'' = ''HLS''" "toUpperCase ''dash'' = ''DASH''" by code_simp+
  then show ?thesis by (cases p) simp_all
qed

lemma endsWith_append: "endsWith (nm @ suffix) suffix"
  by (simp add: endsWith_def)

lemma slice_off_append:
  "slice_off 5 (nm @ ''.m3u8'') = nm" "slice_off 4 (nm @ ''.mpd'') = nm"
  by (simp_all add: slice_off_def)

lemma mpd_not_m3u8: "\<not> endsWith (nm @ ''.mpd'') ''.m3u8''"
proof
  assume "endsWith (nm @ ''.mpd'') ''.m3u8''"
  then have "drop (length (nm @ ''.mpd'') - length ''.m3u8'') (nm @ ''.mpd'') = ''.m3u8''"
    by (simp add: endsWith_def)
  then have "last (drop (length (nm @ ''.mpd'') - length ''.m3u8'') (nm @ ''.mpd'')) = last ''.m3u8''"
    by simp
  then show False by (simp add: last_drop)
qed

lemma get_redirect_short_link:
  "get_redirect (nm @ extension p) s = resolve nm p s"
proof (cases p)
  case Hls
  show ?thesis
    using endsWith_append [of nm "''.m3u8''"]
    by (simp add: Hls extension_def get_redirect_def slice_off_append)
next
  case Dash
  show ?thesis
    using endsWith_append [of nm "''.mpd''"] mpd_not_m3u8 [of nm]
    by (simp add: Dash extension_def get_redirect_def slice_off_append)
qed

section \<open>The order of the list within one run of the process\<close>

text \<open>
  As long as the process is not restarted, \<^verbatim>\<open>listConfigs\<close> is the list the specification
  describes: each save puts its record first and removes the record it replaces.
\<close>

lemma store_inv_apply_event: "store_inv s \<Longrightarrow> e \<noteq> Restart \<Longrightarrow> store_inv (apply_event s e)"
  by (cases e) (simp_all add: store_inv_saveConfig store_inv_deleteConfig)

lemma listConfigs_apply_event:
  "store_inv s \<Longrightarrow> e \<noteq> Restart \<Longrightarrow> listConfigs (apply_event s e) = spec_list_after (listConfigs s) e"
  by (cases e) (simp_all add: listConfigs_saveConfig listConfigs_deleteConfig)

lemma listConfigs_in_session:
  "store_inv s \<Longrightarrow> Restart \<notin> set es \<Longrightarrow>
   listConfigs (run_events es s) = foldl spec_list_after (listConfigs s) es"
  unfolding run_events_def
proof (induction es arbitrary: s)
  case Nil
  show ?case by simp
next
  case (Cons e es)
  have e: "e \<noteq> Restart" and es: "Restart \<notin> set es" using Cons.prems(2) by auto
  have inv: "store_inv (apply_event s e)" by (rule store_inv_apply_event [OF Cons.prems(1) e])
  show ?case
    using Cons.IH [OF inv es] listConfigs_apply_event [OF Cons.prems(1) e] by simp
qed

lemma listConfigs_empty_store: "listConfigs (new_ConfigStore Missing w) = []"
  by (simp add: new_ConfigStore_def loadFromFile_def listConfigs_def js_map_values_def)

lemma listConfigs_recent_first_in_session:
  "Restart \<notin> set es \<Longrightarrow> listConfigs (run_events es (new_ConfigStore Missing w)) = spec_recent_first es"
  using listConfigs_in_session [OF store_inv_new_ConfigStore, of es Missing w]
  by (simp add: listConfigs_empty_store spec_recent_first_def)

lemma upsert_front:
  assumes "store_inv s" "name c2 = name c1" "protocol c2 = protocol c1"
  shows "listConfigs (saveConfig c2 (saveConfig c1 s))
           = c2 # filter (\<lambda>c. \<not> has_key (name c1) (protocol c1) c) (listConfigs s)"
    and "filter (has_key (name c1) (protocol c1)) (listConfigs (saveConfig c2 (saveConfig c1 s))) = [c2]"
    and "getConfig (name c1) (protocol c1) (saveConfig c2 (saveConfig c1 s)) = Some c2"
proof -
  have inv: "store_inv (saveConfig c1 s)" by (rule store_inv_saveConfig [OF assms(1)])
  show l: "listConfigs (saveConfig c2 (saveConfig c1 s))
           = c2 # filter (\<lambda>c. \<not> has_key (name c1) (protocol c1) c) (listConfigs s)"
    using assms(2,3)
    by (simp add: listConfigs_saveConfig [OF inv] listConfigs_saveConfig [OF assms(1)] has_key_def)
  show "filter (has_key (name c1) (protocol c1)) (listConfigs (saveConfig c2 (saveConfig c1 s))) = [c2]"
    using assms(2,3) by (simp add: l has_key_def)
  show "getConfig (name c1) (protocol c1) (saveConfig c2 (saveConfig c1 s)) = Some c2"
    using assms(2,3) by (simp add: getConfig_saveConfig)
qed

section \<open>Sample values\<close>

lemma sample_fields:
  "name (sample_config nm p d) = nm" "protocol (sample_config nm p d) = p"
  "sourceUrl (sample_config nm p d) = Some ''https://cdn.example/master.m3u8''"
  "instanceUrl (sample_config nm p d) = ''https://chaos.example''"
  "statusCodes (sample_config nm p d) = []" "timeouts (sample_config nm p d) = []"
  "throttles (sample_config nm p d) = []"
  "delays (sample_config nm p d) = [\<lparr>i = Some Wildcard, sq = None, rsq = None, br = None, l = None, ms = Some d\<rparr>]"
  by (simp_all add: sample_config_def)

lemma encode_sample_delay:
  "encode_delay \<lparr>i = Some Wildcard, sq = None, rsq = None, br = None, l = None, ms = Some 1000\<rparr> = ''{i:*,ms:1000}''"
  "encode_delay \<lparr>i = Some Wildcard, sq = None, rsq = None, br = None, l = None, ms = Some 2000\<rparr> = ''{i:*,ms:2000}''"
  by (simp_all add: encode_delay_def delay_object_def targeting_object_def assign_defined_def
          template_text_def string_of_number_def string_of_nat.simps digit_char_def)

lemma encode_sample_config:
  "encodeProxyUrl (sample_config ''name'' Hls 1000)
     = Some ''https://chaos.example/api/v2/manifests/hls/proxy-master.m3u8?url=https://cdn.example/master.m3u8&delay=[{i:*,ms:1000}]''"
  "encodeProxyUrl (sample_config ''name'' Hls 2000)
     = Some ''https://chaos.example/api/v2/manifests/hls/proxy-master.m3u8?url=https://cdn.example/master.m3u8&delay=[{i:*,ms:2000}]''"
  by (simp_all add: encodeProxyUrl_def no_sourceUrl_def query_text sample_fields spec_param_def
        endpoint_def encode_sample_delay template_text_def)

lemma resolve_saved:
  assumes "name c = nm" "protocol c = p" "encodeProxyUrl c = Some url"
  shows "resolve nm p (saveConfig c s) = (Redirect 302 url, [Call_getConfig nm p, Call_generateProxyUrl nm p])"
  using assms by (simp add: resolve_def generateProxyUrl_def getConfig_saveConfig)

lemma recognised_filename:
  assumes "endsWith filename ''.m3u8'' \<or> endsWith filename ''.mpd''"
  shows "\<exists>nm p. filename = nm @ extension p"
proof -
  have "\<And>suffix. endsWith filename suffix \<Longrightarrow> filename = take (length filename - length suffix) filename @ suffix"
    by (metis append_take_drop_id endsWith_def)
  then have "(\<exists>nm. filename = nm @ extension Hls) \<or> (\<exists>nm. filename = nm @ extension Dash)"
    using assms unfolding extension_def by (metis protocol.simps(3,4))
  then show ?thesis by blast
qed

lemma write_ok_saveConfig: "write_ok (saveConfig c s) = write_ok s"
  by (simp add: saveConfig_def saveToFile_def Let_def)

section \<open>The claims\<close>

text \<open>
  C1. Every corruption descriptor the query encoder serialises is written with unquoted
  keys, with the wildcard index as a bare \<^verbatim>\<open>*\<close> and without the fields that are not
  set: for each of the four kinds the text \<^verbatim>\<open>toUnquotedJson\<close> returns for the object
  built by \<^verbatim>\<open>generateProxyUrl\<close> is the specification's text (the set fields in the
  order i, sq, rsq, br and then l, ms or code or rate, as \<^verbatim>\<open>key:value\<close> between braces),
  and it holds no double quote at all. A Delay with wildcard targeting and ms = 1000 is
  \<^verbatim>\<open>{i:*,ms:1000}\<close>; a Timeout with only br = 2000000 is \<^verbatim>\<open>{br:2000000}\<close>.
\<close>

theorem descriptor_serialisation:
  "toUnquotedJson (delay_object dl) = Some (encode_delay dl)
   \<and> toUnquotedJson (status_code_object sc) = Some (encode_status_code sc)
   \<and> toUnquotedJson (timeout_object tm) = Some (encode_timeout tm)
   \<and> toUnquotedJson (throttle_object th) = Some (encode_throttle th)
   \<and> encode_delay dl = spec_object (spec_targeting dl @
         [spec_field ''l'' (map_option string_of_number (l dl)),
          spec_field ''ms'' (map_option string_of_number (ms dl))])
   \<and> encode_status_code sc = spec_object (spec_targeting sc @
         [spec_field ''code'' (map_option string_of_number (code sc))])
   \<and> encode_timeout tm = spec_object (spec_targeting tm)
   \<and> encode_throttle th = spec_object (spec_targeting th @
         [spec_field ''rate'' (map_option string_of_number (rate th))])
   \<and> CHR 0x22 \<notin> set (encode_delay dl)
   \<and> CHR 0x22 \<notin> set (encode_status_code sc)
   \<and> CHR 0x22 \<notin> set (encode_timeout tm)
   \<and> CHR 0x22 \<notin> set (encode_throttle th)
   \<and> encode_delay \<lparr>i = Some Wildcard, sq = None, rsq = None, br = None, l = None, ms = Some 1000\<rparr>
        = ''{i:*,ms:1000}''
   \<and> encode_timeout \<lparr>i = None, sq = None, rsq = None, br = Some 2000000\<rparr> = ''{br:2000000}''"
proof -
  have a: "encode_delay \<lparr>i = Some Wildcard, sq = None, rsq = None, br = None, l = None, ms = Some 1000\<rparr>
        = ''{i:*,ms:1000}''"
    by (simp add: encode_delay_def delay_object_def targeting_object_def assign_defined_def
          template_text_def string_of_number_def string_of_nat.simps digit_char_def)
  have b: "encode_timeout \<lparr>i = None, sq = None, rsq = None, br = Some 2000000\<rparr> = ''{br:2000000}''"
    by (simp add: encode_timeout_def timeout_object_def targeting_object_def assign_defined_def
          template_text_def string_of_number_def string_of_nat.simps digit_char_def)
  show ?thesis
    using a b
      toUnquotedJson_delay_object [of dl] toUnquotedJson_status_code_object [of sc]
      toUnquotedJson_timeout_object [of tm] toUnquotedJson_throttle_object [of th]
      encode_delay_spec [of dl] encode_status_code_spec [of sc]
      encode_timeout_spec [of tm] encode_throttle_spec [of th]
      encode_delay_no_quote [of dl] encode_status_code_no_quote [of sc]
      encode_timeout_no_quote [of tm] encode_throttle_no_quote [of th]
    by blast
qed

text \<open>
  C2. For a stored configuration whose source URL is not empty, the generated proxy URL
  is the instance URL, the endpoint of the protocol, \<^verbatim>\<open>?url=\<close> and the source URL as it
  is (no percent-encoding), followed by one parameter for each corruption list that is
  not empty, named \<^verbatim>\<open>delay\<close>, \<^verbatim>\<open>statusCode\<close>, \<^verbatim>\<open>timeout\<close>, \<^verbatim>\<open>throttle\<close> in this order;
  an empty list contributes nothing.
\<close>

theorem proxy_url_query_layout:
  assumes "getConfig nm p s = Some c" "sourceUrl c = Some src" "src \<noteq> []"
  shows "generateProxyUrl nm p s =
     Some (instanceUrl c @ endpoint (protocol c) @ ''?'' @ ''url='' @ src
       @ spec_param ''delay'' (map encode_delay (delays c))
       @ spec_param ''statusCode'' (map encode_status_code (statusCodes c))
       @ spec_param ''timeout'' (map encode_timeout (timeouts c))
       @ spec_param ''throttle'' (map encode_throttle (throttles c)))"
  using assms
  by (simp add: generateProxyUrl_def encodeProxyUrl_def no_sourceUrl_def query_text template_text_def)

theorem proxy_url_query_layout_witness:
  "getConfig ''x'' Hls (saveConfig (sample_config ''x'' Hls 1000) empty_store)
     = Some (sample_config ''x'' Hls 1000)
   \<and> generateProxyUrl ''x'' Hls (saveConfig (sample_config ''x'' Hls 1000) empty_store)
     = Some ''https://chaos.example/api/v2/manifests/hls/proxy-master.m3u8?url=https://cdn.example/master.m3u8&delay=[{i:*,ms:1000}]''"
proof -
  have g: "getConfig ''x'' Hls (saveConfig (sample_config ''x'' Hls 1000) empty_store)
     = Some (sample_config ''x'' Hls 1000)"
    by (simp add: getConfig_saveConfig sample_fields)
  show ?thesis
    using g proxy_url_query_layout [OF g sample_fields(3)]
    by (simp add: sample_fields spec_param_def endpoint_def encode_sample_delay)
qed

text \<open>
  C3. The claim that \<^verbatim>\<open>list()\<close> returns the records most recently saved first does
  not survive a restart. Starting from an empty store, record a is saved, then record b,
  and the process is restarted: \<^verbatim>\<open>listConfigs\<close> then returns a before b, while the
  order the specification promises is b before a. (Within one run of the process the
  order is the promised one, and a second save under a key leaves one record, the second
  payload, first in the list: \<open>listConfigs_recent_first_in_session\<close> and \<open>upsert_front\<close>.)
\<close>

theorem list_after_restart_oldest_first:
  "listConfigs (run_events [Save (sample_config ''a'' Hls 1000), Save (sample_config ''b'' Hls 2000), Restart]
        empty_store)
     = [sample_config ''a'' Hls 1000, sample_config ''b'' Hls 2000]
   \<and> spec_recent_first [Save (sample_config ''a'' Hls 1000), Save (sample_config ''b'' Hls 2000), Restart]
     = [sample_config ''b'' Hls 2000, sample_config ''a'' Hls 1000]"
  by (simp add: run_events_def empty_store_def new_ConfigStore_def loadFromFile_def saveConfig_def
        saveToFile_def Let_def js_map_has_def js_map_delete_def js_map_values_def restart_def
        listConfigs_def spec_recent_first_def has_key_def sample_fields getKey_def)

text \<open>
  C4. Saving a configuration record and then fetching it by its own name and protocol
  returns exactly the record that was saved, hence the same delays, status codes,
  timeouts and throttles, the same source URL, protocol and stream type, whatever the
  store held before.
\<close>

theorem saveConfig_getConfig_roundtrip:
  "getConfig (name c) (protocol c) (saveConfig c s) = Some c"
  by (simp add: getConfig_saveConfig)

text \<open>
  C5. The entries of one name under the two protocols are independent. For protocols
  \<open>p \<noteq> q\<close>: saving a record under \<open>(nm, p)\<close> leaves what is stored under \<open>(nm, q)\<close>
  as it was, and so does deleting \<open>(nm, p)\<close>; after saving one record under each, both
  are there, and deleting the first leaves the second present and unchanged.
\<close>

theorem same_name_two_protocols_independent:
  assumes "p \<noteq> q"
  shows "(name c = nm \<and> protocol c = p \<longrightarrow> getConfig nm q (saveConfig c s) = getConfig nm q s)
       \<and> getConfig nm q (snd (deleteConfig nm p s)) = getConfig nm q s
       \<and> (name c = nm \<and> protocol c = p \<and> name c' = nm \<and> protocol c' = q \<longrightarrow>
            getConfig nm p (saveConfig c' (saveConfig c s)) = Some c
          \<and> getConfig nm q (saveConfig c' (saveConfig c s)) = Some c'
          \<and> getConfig nm q (snd (deleteConfig nm p (saveConfig c' (saveConfig c s)))) = Some c'
          \<and> getConfig nm p (snd (deleteConfig nm p (saveConfig c' (saveConfig c s)))) = None)"
  using assms by (auto simp: getConfig_saveConfig getConfig_deleteConfig)

theorem same_name_two_protocols_independent_witness:
  "Hls \<noteq> Dash
   \<and> getConfig ''x'' Dash (saveConfig (sample_config ''x'' Hls 1000) empty_store)
       = getConfig ''x'' Dash empty_store
   \<and> getConfig ''x'' Hls
        (saveConfig (sample_config ''x'' Dash 5) (saveConfig (sample_config ''x'' Hls 1000) empty_store))
       = Some (sample_config ''x'' Hls 1000)
   \<and> getConfig ''x'' Dash
        (snd (deleteConfig ''x'' Hls
           (saveConfig (sample_config ''x'' Dash 5) (saveConfig (sample_config ''x'' Hls 1000) empty_store))))
       = Some (sample_config ''x'' Dash 5)"
proof -
  have h: "Hls \<noteq> Dash" by simp
  have n: "name (sample_config ''x'' Hls 1000) = ''x''" "protocol (sample_config ''x'' Hls 1000) = Hls"
          "name (sample_config ''x'' Dash 5) = ''x''" "protocol (sample_config ''x'' Dash 5) = Dash"
    by (simp_all add: sample_config_def)
  show ?thesis
    using same_name_two_protocols_independent
            [OF h, of "sample_config ''x'' Hls 1000" "''x''" empty_store "sample_config ''x'' Dash 5"] n
    by simp
qed

text \<open>
  C6. The redirect resolver caches nothing. A configuration is saved and its short link
  requested: the answer is a 302 to the encoder's URL for it. An updated configuration
  is then saved under the same name and protocol and the same short link requested
  again: the answer is a 302 to the encoder's URL for the updated configuration.
\<close>

theorem redirect_reflects_latest_save:
  assumes "name c = nm" "protocol c = p" "name c' = nm" "protocol c' = p"
    and "encodeProxyUrl c = Some url" "encodeProxyUrl c' = Some url'"
  shows "fst (get_redirect (nm @ extension p) (saveConfig c s)) = Redirect 302 url
       \<and> fst (get_redirect (nm @ extension p) (saveConfig c' (saveConfig c s))) = Redirect 302 url'"
  using resolve_saved [OF assms(1,2,5), of s] resolve_saved [OF assms(3,4,6), of "saveConfig c s"]
  by (simp add: get_redirect_short_link)

theorem redirect_reflects_latest_save_witness:
  "fst (get_redirect ''name.m3u8'' (saveConfig (sample_config ''name'' Hls 1000) empty_store))
     = Redirect 302 ''https://chaos.example/api/v2/manifests/hls/proxy-master.m3u8?url=https://cdn.example/master.m3u8&delay=[{i:*,ms:1000}]''
   \<and> fst (get_redirect ''name.m3u8''
          (saveConfig (sample_config ''name'' Hls 2000) (saveConfig (sample_config ''name'' Hls 1000) empty_store)))
     = Redirect 302 ''https://chaos.example/api/v2/manifests/hls/proxy-master.m3u8?url=https://cdn.example/master.m3u8&delay=[{i:*,ms:2000}]''"
  using redirect_reflects_latest_save
          [OF sample_fields(1) sample_fields(2) sample_fields(1) sample_fields(2)
              encode_sample_config(1) encode_sample_config(2), of empty_store]
  by (simp add: extension_def)

text \<open>
  C7. For a configuration whose source URL is absent or empty the encoder returns no URL
  (the \<^verbatim>\<open>null\<close> result, not an empty string), and when such a record is the one stored
  under a name and protocol, the short link answers 500 "Failed to generate proxy URL"
  instead of redirecting.
\<close>

theorem missing_source_url_gives_500:
  assumes "sourceUrl c = None \<or> sourceUrl c = Some []"
  shows "encodeProxyUrl c = None
       \<and> (getConfig nm p s = Some c \<longrightarrow>
            generateProxyUrl nm p s = None
          \<and> get_redirect (nm @ extension p) s
              = (SendText 500 ''Failed to generate proxy URL'',
                 [Call_getConfig nm p, Call_generateProxyUrl nm p]))"
proof -
  have e: "encodeProxyUrl c = None"
    using assms by (auto simp: encodeProxyUrl_def no_sourceUrl_def)
  show ?thesis
    by (simp add: e get_redirect_short_link resolve_def generateProxyUrl_def)
qed

theorem missing_source_url_gives_500_witness:
  "encodeProxyUrl ((sample_config ''x'' Dash 1000)\<lparr>sourceUrl := Some []\<rparr>) = None
   \<and> get_redirect ''x.mpd'' (saveConfig ((sample_config ''x'' Dash 1000)\<lparr>sourceUrl := Some []\<rparr>) empty_store)
       = (SendText 500 ''Failed to generate proxy URL'',
          [Call_getConfig ''x'' Dash, Call_generateProxyUrl ''x'' Dash])"
proof -
  let ?c = "(sample_config ''x'' Dash 1000)\<lparr>sourceUrl := Some []\<rparr>"
  have h: "sourceUrl ?c = None \<or> sourceUrl ?c = Some []" by simp
  have g: "getConfig ''x'' Dash (saveConfig ?c empty_store) = Some ?c"
    by (simp add: getConfig_saveConfig sample_fields)
  show ?thesis
    using missing_source_url_gives_500 [OF h, of "''x''" Dash "saveConfig ?c empty_store"] g
    by (simp add: extension_def)
qed

text \<open>
  C8. A short-link request whose filename ends neither in \<^verbatim>\<open>.m3u8\<close> nor in \<^verbatim>\<open>.mpd\<close>
  is answered 400 without any call on the store. Every other filename is a name followed
  by the extension of a protocol, and when nothing is stored under that name and
  protocol the answer is 404 with a text naming the name and the protocol, after the one
  lookup and without a call of \<^verbatim>\<open>generateProxyUrl\<close>.
\<close>

theorem redirect_rejections:
  "(\<not> endsWith filename ''.m3u8'' \<and> \<not> endsWith filename ''.mpd'' \<longrightarrow>
      get_redirect filename s
        = (SendText 400 ''Invalid filename. Use .m3u8 for HLS or .mpd for DASH'', []))
   \<and> (endsWith filename ''.m3u8'' \<or> endsWith filename ''.mpd'' \<longrightarrow>
        (\<exists>nm p. filename = nm @ extension p))
   \<and> (getConfig nm p s = None \<longrightarrow>
        get_redirect (nm @ extension p) s
          = (SendText 404
               (''Configuration '' @ [CHR 0x27] @ nm @ [CHR 0x27] @ '' for ''
                @ (case p of Hls \<Rightarrow> ''HLS'' | Dash \<Rightarrow> ''DASH'')
                @ '' not found. Please create a configuration with this name and protocol first.''),
             [Call_getConfig nm p]))"
proof -
  have a: "\<not> endsWith filename ''.m3u8'' \<and> \<not> endsWith filename ''.mpd'' \<longrightarrow>
      get_redirect filename s
        = (SendText 400 ''Invalid filename. Use .m3u8 for HLS or .mpd for DASH'', [])"
    by (simp add: get_redirect_def)
  have b: "endsWith filename ''.m3u8'' \<or> endsWith filename ''.mpd'' \<longrightarrow>
        (\<exists>nm p. filename = nm @ extension p)"
    using recognised_filename [of filename] by blast
  have c: "getConfig nm p s = None \<longrightarrow>
        get_redirect (nm @ extension p) s
          = (SendText 404
               (''Configuration '' @ [CHR 0x27] @ nm @ [CHR 0x27] @ '' for ''
                @ (case p of Hls \<Rightarrow> ''HLS'' | Dash \<Rightarrow> ''DASH'')
                @ '' not found. Please create a configuration with this name and protocol first.''),
             [Call_getConfig nm p])"
    by (simp add: get_redirect_short_link resolve_def not_found_text_def toUpperCase_protocol)
  from a b c show ?thesis by blast
qed

theorem redirect_rejections_witness:
  "get_redirect ''name.xyz'' empty_store
     = (SendText 400 ''Invalid filename. Use .m3u8 for HLS or .mpd for DASH'', [])
   \<and> get_redirect ''doesnotexist.m3u8'' empty_store
     = (SendText 404 ''Configuration 'doesnotexist' for HLS not found. Please create a configuration with this name and protocol first.'',
        [Call_getConfig ''doesnotexist'' Hls])"
proof -
  have a: "\<not> endsWith ''name.xyz'' ''.m3u8'' \<and> \<not> endsWith ''name.xyz'' ''.mpd''"
    by (simp add: endsWith_def)
  have b: "getConfig ''doesnotexist'' Hls empty_store = None"
    by (simp add: getConfig_def js_map_get_def empty_store_def new_ConfigStore_def loadFromFile_def)
  show ?thesis
    using redirect_rejections [of "''name.xyz''" empty_store "''doesnotexist''" Hls] a b
    by (simp add: extension_def)
qed

text \<open>
  C9. A save request whose name is missing or does not match
  \<^verbatim>\<open>^[a-zA-Z0-9_-]+$\<close> is answered 400, with the error "Invalid request" or "Invalid
  name", and the store is returned exactly as it was.
\<close>

theorem invalid_name_rejected:
  assumes "body_name b = None \<or> (\<exists>nm. body_name b = Some nm \<and> \<not> name_format_ok nm)"
  shows "post_config b s
           = (ErrorJson 400 ''Invalid request''
                ''name, instanceUrl, sourceUrl, and protocol are required'', s)
       \<or> post_config b s
           = (ErrorJson 400 ''Invalid name''
                ''Configuration name must contain only letters, numbers, hyphens, and underscores'', s)"
  using assms by (auto simp: post_config_def falsy_string_def)

theorem invalid_name_rejected_witness:
  "\<not> name_format_ok ''bad name!''
   \<and> post_config \<lparr>body_name = Some ''bad name!'', body_instanceUrl = Some ''https://chaos.example'',
         body_sourceUrl = Some ''https://cdn.example/master.m3u8'', body_protocol = Some Hls,
         body_streamType = None, body_description = None, body_delays = None,
         body_statusCodes = None, body_timeouts = None, body_throttles = None\<rparr> empty_store
     = (ErrorJson 400 ''Invalid name''
          ''Configuration name must contain only letters, numbers, hyphens, and underscores'',
        empty_store)"
proof -
  let ?b = "\<lparr>body_name = Some ''bad name!'', body_instanceUrl = Some ''https://chaos.example'',
         body_sourceUrl = Some ''https://cdn.example/master.m3u8'', body_protocol = Some Hls,
         body_streamType = None, body_description = None, body_delays = None,
         body_statusCodes = None, body_timeouts = None, body_throttles = None\<rparr>"
  have n: "\<not> name_format_ok ''bad name!''" by (simp add: name_format_ok_def name_char_def)
  then have h: "body_name ?b = None \<or> (\<exists>nm. body_name ?b = Some nm \<and> \<not> name_format_ok nm)" by simp
  have r: "fst (post_config ?b empty_store) \<noteq> ErrorJson 400 ''Invalid request''
                ''name, instanceUrl, sourceUrl, and protocol are required''"
    by (simp add: post_config_def falsy_string_def)
  show ?thesis using invalid_name_rejected [OF h, of empty_store] n r by auto
qed

text \<open>
  C10. When the collection is written to the file and a new store is built from that
  file, the new store holds the same record under every key, and \<^verbatim>\<open>listConfigs\<close>
  returns the reverse of what it returned before. This is for a store that satisfies the
  invariant, which every store the code builds does, and for a write that succeeds.
\<close>

theorem reload_same_records_reversed_list:
  assumes "store_inv s" "write_ok s"
  shows "(\<forall>k. js_map_get k (configs (restart (saveToFile s))) = js_map_get k (configs s))
       \<and> (\<forall>nm p. getConfig nm p (restart (saveToFile s)) = getConfig nm p s)
       \<and> listConfigs (restart (saveToFile s)) = rev (listConfigs s)"
proof -
  have c: "configs (restart (saveToFile s)) = rev (configs s)" by (rule configs_reload [OF assms])
  have m: "map_of (rev (configs s)) = map_of (configs s)"
    using assms(1) by (intro map_of_inject_set [THEN iffD2]) (simp_all add: store_inv_def rev_map [symmetric])
  show ?thesis by (simp add: c m js_map_get_def getConfig_def listConfigs_def js_map_values_def rev_map)
qed

theorem reload_same_records_reversed_list_witness:
  "store_inv (saveConfig (sample_config ''b'' Hls 2000) (saveConfig (sample_config ''a'' Hls 1000) empty_store))
   \<and> write_ok (saveConfig (sample_config ''b'' Hls 2000) (saveConfig (sample_config ''a'' Hls 1000) empty_store))
   \<and> listConfigs (saveConfig (sample_config ''b'' Hls 2000) (saveConfig (sample_config ''a'' Hls 1000) empty_store))
       = [sample_config ''b'' Hls 2000, sample_config ''a'' Hls 1000]
   \<and> listConfigs (restart (saveToFile
        (saveConfig (sample_config ''b'' Hls 2000) (saveConfig (sample_config ''a'' Hls 1000) empty_store))))
       = [sample_config ''a'' Hls 1000, sample_config ''b'' Hls 2000]
   \<and> getConfig ''a'' Hls (restart (saveToFile
        (saveConfig (sample_config ''b'' Hls 2000) (saveConfig (sample_config ''a'' Hls 1000) empty_store))))
       = Some (sample_config ''a'' Hls 1000)"
proof -
  let ?s = "saveConfig (sample_config ''b'' Hls 2000) (saveConfig (sample_config ''a'' Hls 1000) empty_store)"
  have inv: "store_inv ?s"
    by (simp add: empty_store_def store_inv_saveConfig store_inv_new_ConfigStore)
  have w: "write_ok ?s"
    by (simp add: write_ok_saveConfig empty_store_def new_ConfigStore_def loadFromFile_def)
  have l: "listConfigs ?s = [sample_config ''b'' Hls 2000, sample_config ''a'' Hls 1000]"
    by (simp add: listConfigs_saveConfig store_inv_new_ConfigStore store_inv_saveConfig has_key_def
          sample_fields empty_store_def listConfigs_empty_store)
  have g: "getConfig ''a'' Hls ?s = Some (sample_config ''a'' Hls 1000)"
    by (simp add: getConfig_saveConfig sample_fields)
  show ?thesis
    using reload_same_records_reversed_list [OF inv w] inv w l g by simp
qed

end
